theory Spec2Isabelle
  imports Main "HOL-Library.Finite_Map"
begin

section \<open>Python values\<close>

text \<open>
  The program is Python and its containers are dynamically typed. The values that flow
  through it are the ones the feed parser \<^verbatim>\<open>xmltodict.parse\<close> produces (text, \<^verbatim>\<open>None\<close>
  for an empty element, a dict for an element with children or attributes, a list for a
  repeated element) and the ones the database returns (the integer \<^verbatim>\<open>id\<close>, text,
  \<^verbatim>\<open>None\<close> for NULL). A \<^verbatim>\<open>str\<close> is a \<open>string\<close>; text outside ASCII is held as its
  UTF-8 code units. A dict is a finite map from its keys, so that two dicts are equal
  when they have the same keys with equal values, whatever the order of insertion:
  \<^verbatim>\<open>==\<close> of Python is equality of these values.
\<close>

datatype pyval =
    PNone
  | PInt int
  | PStr string
  | PDict "(string, pyval) fmap"
  | PList "pyval list"

text \<open>
  The exceptions that the code can meet, raised by Python or by a library;
  \<open>OtherError\<close> stands for a class that is not listed, by its name.
\<close>

datatype exn =
    ValueError
  | IndexError
  | KeyError string
  | TypeError
  | OverflowError
  | OSError
  | RequestException
  | ExpatError
  | OperationalError
  | OtherError string

text \<open>
  What the program writes to the console: \<^verbatim>\<open>print\<close> of a text, and
  \<^verbatim>\<open>pprint.pprint\<close> of a list of database rows.
\<close>

datatype printed = Print string | PPrint "pyval list list"



text \<open>
  \<^verbatim>\<open>xs.index(x)\<close> on a list and \<^verbatim>\<open>s.index(sub)\<close> on a \<^verbatim>\<open>str\<close>: the lowest
  position at which \<open>x\<close> (the substring \<open>sub\<close>) is found. Both raise
  \<^verbatim>\<open>ValueError\<close> when there is none, which is \<open>None\<close> here.
\<close>

fun list_index :: "'a list \<Rightarrow> 'a \<Rightarrow> nat option" where
  "list_index [] x = None"
| "list_index (y # ys) x = (if y = x then Some 0 else map_option Suc (list_index ys x))"

fun str_index :: "string \<Rightarrow> string \<Rightarrow> nat option" where
  "str_index [] sub = (if sub = [] then Some 0 else None)"
| "str_index (c # cs) sub =
     (if take (length sub) (c # cs) = sub then Some 0
      else map_option Suc (str_index cs sub))"


section \<open>The feed normalizer\<close>

text \<open>
  The text of the f-string of lines 126 and 127, before and after the substring it
  quotes. The backslash at the end of line 126 joins the two source lines.
\<close>

definition err_text_prefix :: string where
  "err_text_prefix =
     [CHR 0xD0, CHR 0x9E, CHR 0xD0, CHR 0xA8, CHR 0xD0, CHR 0x98, CHR 0xD0, CHR 0x91,
      CHR 0xD0, CHR 0x9A, CHR 0xD0, CHR 0x90] @
     ''! '' @
     [CHR 0xD0, CHR 0x9F, CHR 0xD0, CHR 0xBE, CHR 0xD0, CHR 0xB4, CHR 0xD1, CHR 0x81,
      CHR 0xD1, CHR 0x82, CHR 0xD1, CHR 0x80, CHR 0xD0, CHR 0xBE, CHR 0xD0, CHR 0xBA,
      CHR 0xD0, CHR 0xB0] @
     '' '' @
     [CHR 0x22]"

definition err_text_suffix :: string where
  "err_text_suffix =
     [CHR 0x22] @
     '' '' @
     [CHR 0xD0, CHR 0xBD, CHR 0xD0, CHR 0xB5] @
     '' '' @
     [CHR 0xD0, CHR 0xBD, CHR 0xD0, CHR 0xB0, CHR 0xD0, CHR 0xB9, CHR 0xD0, CHR 0xB4,
      CHR 0xD0, CHR 0xB5, CHR 0xD0, CHR 0xBD, CHR 0xD0, CHR 0xB0] @
     '' '' @
     [CHR 0xD0, CHR 0xB2] @
     '' '' @
     [CHR 0xD0, CHR 0xBF, CHR 0xD0, CHR 0xB5, CHR 0xD1, CHR 0x80, CHR 0xD0, CHR 0xB5,
      CHR 0xD0, CHR 0xB4, CHR 0xD0, CHR 0xB0, CHR 0xD0, CHR 0xB2, CHR 0xD0, CHR 0xB0,
      CHR 0xD0, CHR 0xB5, CHR 0xD0, CHR 0xBC, CHR 0xD0, CHR 0xBE, CHR 0xD0, CHR 0xBC] @
     '' '' @
     [CHR 0xD1, CHR 0x82, CHR 0xD0, CHR 0xB5, CHR 0xD0, CHR 0xBA, CHR 0xD1, CHR 0x81,
      CHR 0xD1, CHR 0x82, CHR 0xD0, CHR 0xB5] @
     '' rss_text '' @
     [CHR 0xD0, CHR 0xB2] @
     '' '' @
     [CHR 0xD0, CHR 0xBC, CHR 0xD0, CHR 0xB5, CHR 0xD1, CHR 0x82, CHR 0xD0, CHR 0xBE,
      CHR 0xD0, CHR 0xB4, CHR 0xD0, CHR 0xB5] @
     '' rss_cutter''"

definition err_text :: "string \<Rightarrow> string" where
  "err_text substr_to_find = err_text_prefix @ substr_to_find @ err_text_suffix"

text \<open>
  \<^verbatim>\<open>NewsHarvester.rss_cutter\<close> (lines 103 to 131). The result is what the method
  printed and the \<^verbatim>\<open>str\<close> it returned: in both branches a \<^verbatim>\<open>str\<close>.
\<close>

definition rss_cutter :: "string \<Rightarrow> string \<Rightarrow> printed list \<times> string" where
  "rss_cutter rss_text substr_to_find =
     (case str_index rss_text substr_to_find of
        None \<Rightarrow> ([Print (err_text substr_to_find)], err_text substr_to_find)
      | Some substr_index \<Rightarrow>
          ([], take substr_index rss_text @ substr_to_find @ ''</channel></rss>''))"

text \<open>
  \<open>sub\<close> occurs in \<open>text\<close> at position \<open>p\<close>: \<^verbatim>\<open>text[p:p+len(sub)] == sub\<close> with
  \<open>p\<close> inside the text.
\<close>

definition occurs_at :: "string \<Rightarrow> string \<Rightarrow> nat \<Rightarrow> bool" where
  "occurs_at text sub p = (p \<le> length text \<and> take (length sub) (drop p text) = sub)"

text \<open>The positions at which \<open>sub\<close> occurs in \<open>text\<close>, in increasing order.\<close>

definition occurrences :: "string \<Rightarrow> string \<Rightarrow> nat list" where
  "occurrences text sub = filter (occurs_at text sub) [0..<Suc (length text)]"

text \<open>
  A well-formed XML document is a prolog followed by the root element (XML 1.0,
  production 1), so its first markup is a declaration, a comment, a processing
  instruction or a start tag: a text that begins with an end tag is not well formed and
  no XML parser accepts it.
\<close>

definition begins_with_end_tag :: "string \<Rightarrow> bool" where
  "begins_with_end_tag doc = (take 2 doc = ''</'')"

section \<open>The freshness tracker\<close>

text \<open>
  \<^verbatim>\<open>NewsHarvester.item_is_fresh\<close> (lines 135 to 152). The method reads and mutates
  \<^verbatim>\<open>self.two_last_news_link\<close>; the model takes that list and returns the result
  together with the list after the call. \<^verbatim>\<open>insert(0, x)\<close> puts \<open>x\<close> in front,
  \<^verbatim>\<open>pop()\<close> removes the last element (the list is not empty there, so it does not
  raise).
\<close>

definition item_is_fresh :: "pyval list \<Rightarrow> pyval \<Rightarrow> bool \<times> pyval list" where
  "item_is_fresh two_last_news_link news_link =
     (if news_link \<in> set two_last_news_link then (False, two_last_news_link)
      else (True, butlast (news_link # two_last_news_link)))"

text \<open>The list of line 57, \<^verbatim>\<open>['', '']\<close>.\<close>

definition empty_window :: "pyval list" where
  "empty_window = [PStr [], PStr []]"

text \<open>
  A run of classifications, one call after the other on the same object: the results
  (the flag and the list after each call), and the list after the last call.
\<close>

fun classify_all :: "pyval list \<Rightarrow> pyval list \<Rightarrow> (bool \<times> pyval list) list" where
  "classify_all w [] = []"
| "classify_all w (l # ls) = item_is_fresh w l # classify_all (snd (item_is_fresh w l)) ls"

fun window_after :: "pyval list \<Rightarrow> pyval list \<Rightarrow> pyval list" where
  "window_after w [] = w"
| "window_after w (l # ls) = window_after (snd (item_is_fresh w l)) ls"

text \<open>The links of a run that were classified fresh, in the order of the calls.\<close>

fun fresh_links :: "pyval list \<Rightarrow> pyval list \<Rightarrow> pyval list" where
  "fresh_links w [] = []"
| "fresh_links w (l # ls) =
     (if fst (item_is_fresh w l) then l # fresh_links (snd (item_is_fresh w l)) ls
      else fresh_links (snd (item_is_fresh w l)) ls)"

section \<open>The outside world\<close>

text \<open>
  The program calls into SQLite, the network, the feed parser, the console and the
  clock. None of them is code of the program, and each call either raises or answers.
  The model takes these outcomes as inputs: what the database did while the object was
  constructed, and what the outside world does during one pass of the loop. Signals
  that interrupt the process between two calls are not part of the model.
\<close>



text \<open>
  Printing one output after the other on a console that may refuse: the exception of
  the first output that raises, and the console with what was printed before it.
\<close>

fun print_all ::
  "(printed \<Rightarrow> exn option) \<Rightarrow> printed list \<Rightarrow> printed list \<Rightarrow> exn option \<times> printed list" where
  "print_all fails out [] = (None, out)"
| "print_all fails out (p # ps) =
     (case fails p of Some e \<Rightarrow> (Some e, out) | None \<Rightarrow> print_all fails (out @ [p]) ps)"





section \<open>The harvester\<close>

text \<open>
  The attributes of a \<^verbatim>\<open>NewsHarvester\<close> that the code reads, and its two effects on
  the outside: \<open>inserted\<close> lists the parameter tuples of the \<^verbatim>\<open>INSERT\<close> statements
  that the object has executed and committed, oldest first; \<open>console\<close> is what it
  has printed. Besides these \<^verbatim>\<open>INSERT\<close> statements the program sends the database
  only the \<^verbatim>\<open>CREATE TABLE IF NOT EXISTS\<close> of line 68, which leaves a table that is
  there as it is, and the two \<^verbatim>\<open>SELECT\<close> statements.
\<close>

record harvester =
  two_last_news_link :: "pyval list"
  timer_for_sleep :: int
  main_rss_link :: string
  inserted :: "pyval list list"
  console :: "printed list"












section \<open>Examples of the outside world\<close>


text \<open>A console that prints everything.\<close>

definition console_ok :: "printed \<Rightarrow> exn option" where
  "console_ok p = None"














section \<open>Helper facts\<close>


lemma window_after_history:
  "window_after w ls = take (length w) (rev (fresh_links w ls) @ w)"
proof (induction ls arbitrary: w)
  case Nil
  show ?case by simp
next
  case (Cons l ls)
  show ?case
  proof (cases "l \<in> set w")
    case True
    then show ?thesis using Cons.IH [of w] by (simp add: item_is_fresh_def)
  next
    case False
    let ?r = "rev (fresh_links (butlast (l # w)) ls)"
    have "l # w = butlast (l # w) @ [last (l # w)]"
      by (simp only: append_butlast_last_id list.distinct not_False_eq_True)
    then have "?r @ l # w = (?r @ butlast (l # w)) @ [last (l # w)]"
      by simp
    then have "take (length w) (?r @ l # w) = take (length w) (?r @ butlast (l # w))"
      by (simp only: take_append) simp
    with False show ?thesis using Cons.IH [of "butlast (l # w)"]
      by (simp add: item_is_fresh_def)
  qed
qed

lemma window_slots_step:
  assumes "w = [a, b]" "a = b \<longrightarrow> a = PStr []"
  shows "\<exists>c d. snd (item_is_fresh w l) = [c, d] \<and> (c = d \<longrightarrow> c = PStr [])"
  using assms by (auto simp: item_is_fresh_def)

lemma window_slots_inv:
  "w = [a, b] \<Longrightarrow> (a = b \<longrightarrow> a = PStr []) \<Longrightarrow>
     \<exists>c d. window_after w ls = [c, d] \<and> (c = d \<longrightarrow> c = PStr [])"
proof (induction ls arbitrary: w a b)
  case Nil
  then show ?case by simp
next
  case (Cons l ls)
  from window_slots_step [OF Cons.prems]
  obtain c d where "snd (item_is_fresh w l) = [c, d]" "c = d \<longrightarrow> c = PStr []"
    by blast
  from Cons.IH [OF this] show ?case by simp
qed

lemma list_index_Some: "list_index xs x = Some k \<Longrightarrow> k < length xs \<and> xs ! k = x"
  by (induction xs arbitrary: k) (auto split: if_splits)


lemma str_index_Some:
  "str_index t d = Some i \<Longrightarrow> occurs_at t d i \<and> (\<forall>j<i. \<not> occurs_at t d j)"
proof (induction t arbitrary: i)
  case Nil
  then show ?case by (simp add: occurs_at_def split: if_splits)
next
  case (Cons c cs)
  show ?case
  proof (cases "take (length d) (c # cs) = d")
    case True
    with Cons.prems show ?thesis by (simp add: occurs_at_def)
  next
    case False
    with Cons.prems obtain k where k: "str_index cs d = Some k" "i = Suc k"
      by auto
    from Cons.IH [OF k(1)] have ih: "occurs_at cs d k" "\<forall>j<k. \<not> occurs_at cs d j"
      by simp_all
    have "occurs_at (c # cs) d (Suc k)"
      using ih(1) by (simp add: occurs_at_def)
    moreover have "\<not> occurs_at (c # cs) d j" if "j < Suc k" for j
    proof (cases j)
      case 0
      with False show ?thesis by (simp add: occurs_at_def)
    next
      case (Suc m)
      with that ih(2) show ?thesis by (simp add: occurs_at_def)
    qed
    ultimately show ?thesis using k(2) by simp
  qed
qed

lemma str_index_None: "str_index t d = None \<Longrightarrow> \<not> occurs_at t d j"
proof (induction t arbitrary: j)
  case Nil
  then show ?case by (auto simp: occurs_at_def split: if_splits)
next
  case (Cons c cs)
  then have no0: "take (length d) (c # cs) \<noteq> d" and rest: "str_index cs d = None"
    by (auto split: if_splits)
  show ?case
  proof (cases j)
    case 0
    with no0 show ?thesis by (simp add: occurs_at_def)
  next
    case (Suc m)
    with Cons.IH [OF rest, of m] show ?thesis by (simp add: occurs_at_def)
  qed
qed

lemma occurrences_iff: "q \<in> set (occurrences t d) \<longleftrightarrow> occurs_at t d q"
proof -
  have "set [0..<Suc (length t)] = {..length t}"
    by (simp only: set_upt atLeast0LessThan lessThan_Suc_atMost)
  then show ?thesis
    by (auto simp only: occurrences_def occurs_at_def set_filter mem_Collect_eq atMost_iff)
qed

lemma occurrences_single:
  assumes "occurrences t d = [p]"
  shows "str_index t d = Some p"
proof -
  from assms have p: "occurs_at t d p" and only: "\<And>q. occurs_at t d q \<Longrightarrow> q = p"
    using occurrences_iff [of _ t d] by auto
  show ?thesis
  proof (cases "str_index t d")
    case None
    from str_index_None [OF None, of p] p show ?thesis by simp
  next
    case (Some i)
    from str_index_Some [OF Some] have "occurs_at t d i" by simp
    with only Some show ?thesis by simp
  qed
qed


lemma print_all_ok: "print_all console_ok out ps = (None, out @ ps)"
  by (induction ps arbitrary: out) (simp_all add: console_ok_def)
























section \<open>The freshness tracker: classification\<close>

text \<open>
  C1. A permalink that is in neither slot of the window is classified fresh: the call
  returns \<open>True\<close>, the permalink goes to position 0, the former position 0 moves to
  position 1 and the former position 1 (the oldest) is dropped. Over a run of calls the
  window is therefore the two permalinks that were classified fresh last, the latest
  first, with the initial content behind them while fewer than two were fresh.
\<close>

theorem item_is_fresh_new:
  "(news_link \<notin> set [a, b] \<longrightarrow>
      item_is_fresh [a, b] news_link = (True, [news_link, a])) \<and>
   window_after [a, b] ls = take 2 (rev (fresh_links [a, b] ls) @ [a, b])"
  using window_after_history [of "[a, b]" ls]
  by (simp add: item_is_fresh_def numeral_2_eq_2)

theorem item_is_fresh_new_witness:
  "PStr ''C'' \<notin> set [PStr ''B'', PStr ''A''] \<and>
   item_is_fresh [PStr ''B'', PStr ''A''] (PStr ''C'') = (True, [PStr ''C'', PStr ''B'']) \<and>
   window_after [PStr ''B'', PStr ''A''] [PStr ''C'', PStr ''B'', PStr ''D''] =
     [PStr ''D'', PStr ''C'']"
  using item_is_fresh_new [of "PStr ''C''" "PStr ''B''" "PStr ''A''"
      "[PStr ''C'', PStr ''B'', PStr ''D'']"]
  by (simp add: item_is_fresh_def)

text \<open>
  C2. A permalink equal to one of the two tracked values is a duplicate: the call
  returns \<open>False\<close> and the window is the same list as before.
\<close>

theorem item_is_fresh_duplicate:
  "news_link \<in> set [a, b] \<Longrightarrow> item_is_fresh [a, b] news_link = (False, [a, b])"
  by (simp add: item_is_fresh_def)

theorem item_is_fresh_duplicate_witness:
  "PStr ''A'' \<in> set [PStr ''B'', PStr ''A''] \<and>
   item_is_fresh [PStr ''B'', PStr ''A''] (PStr ''A'') = (False, [PStr ''B'', PStr ''A''])"
  using item_is_fresh_duplicate [of "PStr ''A''" "PStr ''B''" "PStr ''A''"] by simp

text \<open>
  C6. Take three pairwise distinct permalinks and classify them in turn, starting from
  the window \<^verbatim>\<open>['', '']\<close>. All three are classified fresh exactly when the first two
  are not the empty string (the empty string is in the initial window). Then the four
  calls with the first, the second, the third and the first again all return \<open>True\<close>,
  with the windows listed: the first permalink enters the window, moves to the second
  slot, is dropped by the third call and is therefore fresh again. The run A, B, B, A,
  C, A gives fresh, fresh, duplicate, duplicate, fresh, fresh, with the windows listed.
\<close>

theorem eviction_after_three:
  "(distinct [l1, l2, l3] \<longrightarrow>
      (map fst (classify_all empty_window [l1, l2, l3]) = [True, True, True]) =
        (l1 \<noteq> PStr [] \<and> l2 \<noteq> PStr []) \<and>
      (l1 \<noteq> PStr [] \<and> l2 \<noteq> PStr [] \<longrightarrow>
         classify_all empty_window [l1, l2, l3, l1] =
           [(True, [l1, PStr []]), (True, [l2, l1]), (True, [l3, l2]), (True, [l1, l3])])) \<and>
   classify_all empty_window
     [PStr ''A'', PStr ''B'', PStr ''B'', PStr ''A'', PStr ''C'', PStr ''A''] =
     [(True, [PStr ''A'', PStr []]),
      (True, [PStr ''B'', PStr ''A'']),
      (False, [PStr ''B'', PStr ''A'']),
      (False, [PStr ''B'', PStr ''A'']),
      (True, [PStr ''C'', PStr ''B'']),
      (True, [PStr ''A'', PStr ''C''])]"
  by (auto simp: empty_window_def item_is_fresh_def)

theorem eviction_after_three_witness:
  "distinct [PStr ''A'', PStr ''B'', PStr ''C''] \<and>
   PStr ''A'' \<noteq> PStr [] \<and> PStr ''B'' \<noteq> PStr [] \<and>
   map fst (classify_all empty_window [PStr ''A'', PStr ''B'', PStr ''C'']) =
     [True, True, True] \<and>
   classify_all empty_window [PStr ''A'', PStr ''B'', PStr ''C'', PStr ''A''] =
     [(True, [PStr ''A'', PStr []]), (True, [PStr ''B'', PStr ''A'']),
      (True, [PStr ''C'', PStr ''B'']), (True, [PStr ''A'', PStr ''C''])]"
  using eviction_after_three [of "PStr ''A''" "PStr ''B''" "PStr ''C''"]
  by (simp add: empty_window_def item_is_fresh_def)



text \<open>
  C9. In a window reached from \<^verbatim>\<open>['', '']\<close> by calls of \<open>item_is_fresh\<close> the two
  slots are equal only when both are the empty string.
\<close>

theorem window_slots_differ:
  "window_after empty_window ls = [a, b] \<Longrightarrow> a = b \<Longrightarrow> a = PStr [] \<and> b = PStr []"
  using window_slots_inv [of empty_window "PStr []" "PStr []" ls]
  by (auto simp: empty_window_def)

theorem window_slots_differ_witness:
  "window_after empty_window [PStr [], PStr []] = [PStr [], PStr []] \<and>
   (PStr [] :: pyval) = PStr []"
  using window_slots_differ [of "[PStr [], PStr []]" "PStr []" "PStr []"]
  by (simp add: empty_window_def item_is_fresh_def)




section \<open>The feed normalizer: truncation\<close>

text \<open>
  C3, as the code has it. When the delimiter occurs in the text exactly once, at
  position \<open>p\<close>, \<open>rss_cutter\<close> prints nothing and returns the text up to the end of
  that occurrence, \<^verbatim>\<open>T[0 : p + len(D)]\<close>, followed by \<^verbatim>\<open></channel></rss>\<close>. Nothing is
  said about the result being well formed: that depends on the text before the
  delimiter.
\<close>

theorem rss_cutter_single:
  assumes "occurrences T D = [p]"
  shows "rss_cutter T D = ([], take (p + length D) T @ ''</channel></rss>'')"
proof -
  from assms have "occurs_at T D p" using occurrences_iff [of p T D] by simp
  then have "take (p + length D) T = take p T @ D"
    by (simp add: occurs_at_def take_add)
  with occurrences_single [OF assms] show ?thesis
    by (simp add: rss_cutter_def)
qed

theorem rss_cutter_single_witness:
  "occurrences ''<rss><channel><item>x</item></channel></rss>'' ''</item>'' = [21] \<and>
   rss_cutter ''<rss><channel><item>x</item></channel></rss>'' ''</item>'' =
     ([], ''<rss><channel><item>x</item></channel></rss>'')"
  using rss_cutter_single [of "''<rss><channel><item>x</item></channel></rss>''" "''</item>''" 21]
  by (simp add: occurrences_def occurs_at_def upt_rec)

text \<open>
  C3 as the specification states it also promises a well-formed document for every text
  that holds the delimiter once. The text \<^verbatim>\<open></item>\<close> holds the delimiter once, at
  position 0, and the result \<^verbatim>\<open></item></channel></rss>\<close> begins with an end tag.
\<close>

theorem rss_cutter_not_well_formed:
  "occurrences ''</item>'' ''</item>'' = [0] \<and>
   snd (rss_cutter ''</item>'' ''</item>'') = ''</item></channel></rss>'' \<and>
   begins_with_end_tag (snd (rss_cutter ''</item>'' ''</item>''))"
  by (simp add: occurrences_def occurs_at_def upt_rec rss_cutter_def begins_with_end_tag_def)

text \<open>
  C4. The specification asks for an error that the caller can tell from a document by
  its type. On a feed without an item the delimiter does not occur, and the code
  prints the error message and returns it as the \<^verbatim>\<open>str\<close> result, the type of a
  successful truncation.
\<close>

theorem rss_cutter_error_is_text:
  "occurrences ''<rss><channel></channel></rss>'' ''</item>'' = [] \<and>
   rss_cutter ''<rss><channel></channel></rss>'' ''</item>'' =
     ([Print (err_text ''</item>'')], err_text ''</item>'')"
  by (simp add: occurrences_def occurs_at_def upt_rec rss_cutter_def)

section \<open>Construction: seeding the window\<close>




section \<open>The loop: rows of the store\<close>




end
